theory Spec2Isabelle
  imports Complex_Main
begin

section \<open>The game core of FlappyBird.tsx\<close>

text \<open>
  The model covers the simulation state of the component \<open>FlappyBird\<close>
  (frontend/src/FlappyBird.tsx; the second variant of the file has the same game code):
  the session object behind \<open>gameStateRef\<close>, the two time stamps \<open>lastFrameTimeRef\<close> and
  \<open>lastJumpTimeRef\<close>, and the functions \<open>jump\<close>, \<open>restartGame\<close>, \<open>handleKeyPress\<close>,
  \<open>handleCanvasClick\<close>, \<open>handleTouchStart\<close> and \<open>gameLoop\<close>.

  JavaScript numbers are modelled as exact reals (no rounding, no NaN, no infinities);
  \<open>Date.now()\<close>, a whole number of milliseconds, is an \<open>int\<close> passed to the function that
  reads it; \<open>Math.random()\<close> is a real passed to the frame that may draw it. Drawing,
  audio (the audio context and the queue of pending sounds) and the React display state
  (\<open>isGameOver\<close>, \<open>finalScore\<close>, the leaderboard) are left out: the game code writes them
  and never reads them back.
\<close>

subsection \<open>Constants\<close>

definition GRAVITY :: real where "GRAVITY = 3 / 10"
definition JUMP_STRENGTH :: real where "JUMP_STRENGTH = 15 / 2"
definition PIPE_WIDTH :: real where "PIPE_WIDTH = 52"
definition PIPE_GAP :: real where "PIPE_GAP = 150"
definition PIPE_SPEED :: real where "PIPE_SPEED = 2"
definition BIRD_WIDTH :: real where "BIRD_WIDTH = 34"
definition BIRD_HEIGHT :: real where "BIRD_HEIGHT = 24"
definition TARGET_FPS :: real where "TARGET_FPS = 60"
definition MAX_DELTA_TIME :: real where "MAX_DELTA_TIME = 1"
definition JUMP_COOLDOWN :: int where "JUMP_COOLDOWN = 200"
definition CANVAS_WIDTH :: real where "CANVAS_WIDTH = 288"
definition CANVAS_HEIGHT :: real where "CANVAS_HEIGHT = 512"

subsection \<open>Data\<close>

text \<open>
  The interfaces \<open>Bird\<close>, \<open>Pipe\<close> and \<open>GameState\<close>. The fields \<open>y\<close>, \<open>frame\<close> of the bird
  and \<open>x\<close> of a pipe are called \<open>bird_y\<close>, \<open>bird_frame\<close> and \<open>pipe_x\<close>. The score, the
  frame counter and the sprite index start at 0 and are only ever incremented, so they
  are naturals.
\<close>

record Bird =
  bird_y :: real
  velocity :: real
  bird_frame :: nat

record Pipe =
  pipe_x :: real
  topHeight :: real
  scored :: bool

record GameState =
  bird :: Bird
  pipes :: "Pipe list"
  score :: nat
  gameOver :: bool
  gameStarted :: bool
  frameCount :: nat

text \<open>The rectangles \<open>br\<close>, \<open>tr\<close> and \<open>btr\<close> of the collision test.\<close>

record Rect =
  rect_x :: real
  rect_y :: real
  width :: real
  height :: real

text \<open>
  The component. \<open>gameStateRef.current\<close> is a reference to a session object, and
  \<open>restartGame\<close> makes it point to a new object, so the session objects live in a store:
  \<open>heap\<close> maps an address to the object there, \<open>gameStateRef\<close> is the address the
  reference holds, and \<open>nextAddr\<close> is the address the next object literal gets.
\<close>

record World =
  heap :: "nat \<Rightarrow> GameState"
  gameStateRef :: nat
  nextAddr :: nat
  lastFrameTime :: real
  lastJumpTime :: int

definition current :: "World \<Rightarrow> GameState" where
  "current w = heap w (gameStateRef w)"

text \<open>A function that mutates the object \<open>gameStateRef.current\<close> in place.\<close>

definition mutate :: "(GameState \<Rightarrow> GameState) \<Rightarrow> World \<Rightarrow> World" where
  "mutate f w = w\<lparr>heap := (heap w)(gameStateRef w := f (heap w (gameStateRef w)))\<rparr>"

text \<open>The object literal of \<open>useRef<GameState>(...)\<close> and the one of \<open>restartGame\<close>.\<close>

definition initialState :: GameState where
  "initialState = \<lparr>bird = \<lparr>bird_y = 200, velocity = 0, bird_frame = 0\<rparr>, pipes = [],
     score = 0, gameOver = False, gameStarted = False, frameCount = 0\<rparr>"

definition restartState :: GameState where
  "restartState = \<lparr>bird = \<lparr>bird_y = 200, velocity = 0, bird_frame = 0\<rparr>, pipes = [],
     score = 0, gameOver = False, gameStarted = True, frameCount = 0\<rparr>"

definition initialWorld :: World where
  "initialWorld = \<lparr>heap = (\<lambda>a. initialState), gameStateRef = 0, nextAddr = 1,
     lastFrameTime = 0, lastJumpTime = 0\<rparr>"

text \<open>
  The phase of a session, from its two flags. \<open>gameOver\<close> is only ever set by a frame of
  a started game, so a session that is over and not started has no phase.
\<close>

datatype Phase = NotStarted | Running | Over

definition phase :: "GameState \<Rightarrow> Phase option" where
  "phase s =
     (if gameOver s then (if gameStarted s then Some Over else None)
      else if gameStarted s then Some Running else Some NotStarted)"

subsection \<open>jump, restartGame and the input handlers\<close>

text \<open>\<open>jump\<close>, with \<open>now\<close> the value of \<open>Date.now()\<close>.\<close>

definition jump :: "int \<Rightarrow> World \<Rightarrow> World" where
  "jump now w =
     (let state = current w in
      if now - lastJumpTime w < JUMP_COOLDOWN then w
      else
        let w1 = w\<lparr>lastJumpTime := now\<rparr> in
        if \<not> gameOver state \<and> gameStarted state then
          mutate (\<lambda>s. s\<lparr>bird := (bird s)\<lparr>velocity := - JUMP_STRENGTH\<rparr>\<rparr>) w1
        else if \<not> gameStarted state then
          (mutate (\<lambda>s. s\<lparr>gameStarted := True\<rparr>) w1)\<lparr>lastFrameTime := 0\<rparr>
        else w1)"

definition restartGame :: "World \<Rightarrow> World" where
  "restartGame w =
     w\<lparr>heap := (heap w)(nextAddr w := restartState), gameStateRef := nextAddr w,
       nextAddr := Suc (nextAddr w), lastFrameTime := 0\<rparr>"

text \<open>\<open>handleKeyPress\<close>, with \<open>code\<close> the field \<open>e.code\<close> of the event.\<close>

definition handleKeyPress :: "string \<Rightarrow> int \<Rightarrow> World \<Rightarrow> World" where
  "handleKeyPress code now w =
     (if code = ''Space'' then
        let state = current w in
        if \<not> gameStarted state then
          (mutate (\<lambda>s. s\<lparr>gameStarted := True\<rparr>) w)\<lparr>lastFrameTime := 0\<rparr>
        else if \<not> gameOver state then jump now w
        else w
      else w)"

definition handleCanvasClick :: "int \<Rightarrow> World \<Rightarrow> World" where
  "handleCanvasClick now w = (if gameOver (current w) then w else jump now w)"

definition handleTouchStart :: "int \<Rightarrow> World \<Rightarrow> World" where
  "handleTouchStart now w = (if gameOver (current w) then w else jump now w)"

subsection \<open>gameLoop\<close>

text \<open>
  The step multiplier \<open>dt\<close> of a frame at time \<open>currentTime\<close>, when \<open>lastFrameTimeRef\<close>
  holds \<open>lastT\<close>: a reference that holds 0 is first set to the current time.
\<close>

definition deltaTime :: "real \<Rightarrow> real \<Rightarrow> real" where
  "deltaTime currentTime lastT =
     (let lastT' = (if lastT = 0 then currentTime else lastT);
          dt = (currentTime - lastT') / (1000 / TARGET_FPS)
      in min dt MAX_DELTA_TIME)"

text \<open>
  The first loop over the pipes, from index \<open>i\<close> on: the pipe moves left
  (\<open>state.pipes[i].x -= PIPE_SPEED * dt\<close>), and its index is pushed on \<open>rm\<close> when its
  trailing edge is at or left of 0 (\<open>state.pipes[i].x + PIPE_WIDTH <= 0\<close>). The function
  returns the moved pipes and \<open>rm\<close>.
\<close>

definition movePipe :: "real \<Rightarrow> Pipe \<Rightarrow> Pipe" where
  "movePipe dt p = p\<lparr>pipe_x := pipe_x p - PIPE_SPEED * dt\<rparr>"

definition retired :: "Pipe \<Rightarrow> bool" where
  "retired p \<longleftrightarrow> pipe_x p + PIPE_WIDTH \<le> 0"

fun advanceLoop :: "real \<Rightarrow> nat \<Rightarrow> Pipe list \<Rightarrow> Pipe list \<times> nat list" where
  "advanceLoop dt i [] = ([], [])"
| "advanceLoop dt i (p # ps) =
     (let p' = movePipe dt p;
          (ps', rm) = advanceLoop dt (Suc i) ps
      in (p' # ps', if retired p' then i # rm else rm))"

text \<open>\<open>xs.splice(i, 1)\<close> for a natural \<open>i\<close>; nothing is removed when \<open>i\<close> is out of range.\<close>

definition splice1 :: "nat \<Rightarrow> 'a list \<Rightarrow> 'a list" where
  "splice1 i xs = take i xs @ drop (Suc i) xs"

text \<open>The second loop: the indices of \<open>rm\<close> are spliced out, the last one first.\<close>

definition spliceLoop :: "nat list \<Rightarrow> 'a list \<Rightarrow> 'a list" where
  "spliceLoop rm xs = fold splice1 (rev rm) xs"

text \<open>
  The spawn rule; \<open>rnd\<close> is the number \<open>Math.random()\<close> returns when it is called. The
  canvas element is created with \<open>width={CANVAS_WIDTH}\<close> and \<open>height={CANVAS_HEIGHT}\<close>, so
  \<open>canvas.width\<close> and \<open>canvas.height\<close> are these constants.
\<close>

definition spawn :: "real \<Rightarrow> Pipe list \<Rightarrow> Pipe list" where
  "spawn rnd ps =
     (if ps = [] \<or> pipe_x (last ps) < CANVAS_WIDTH - 200 then
        ps @ [\<lparr>pipe_x = CANVAS_WIDTH,
                topHeight = rnd * (CANVAS_HEIGHT - PIPE_GAP - 100) + 50, scored = False\<rparr>]
      else ps)"

text \<open>The rectangles and the overlap test, which the source writes out twice.\<close>

definition birdRect :: "real \<Rightarrow> Rect" where
  "birdRect y = \<lparr>rect_x = 50, rect_y = y, width = BIRD_WIDTH, height = BIRD_HEIGHT\<rparr>"

definition topPipeRect :: "Pipe \<Rightarrow> Rect" where
  "topPipeRect p = \<lparr>rect_x = pipe_x p, rect_y = 0, width = PIPE_WIDTH, height = topHeight p\<rparr>"

definition bottomPipeRect :: "Pipe \<Rightarrow> Rect" where
  "bottomPipeRect p = \<lparr>rect_x = pipe_x p, rect_y = topHeight p + PIPE_GAP, width = PIPE_WIDTH,
     height = CANVAS_HEIGHT - topHeight p - PIPE_GAP\<rparr>"

definition overlaps :: "Rect \<Rightarrow> Rect \<Rightarrow> bool" where
  "overlaps a b \<longleftrightarrow>
     rect_x a < rect_x b + width b \<and> rect_x a + width a > rect_x b \<and>
     rect_y a < rect_y b + height b \<and> rect_y a + height a > rect_y b"

text \<open>The scoring check of one pipe: the pipe and the score after it.\<close>

definition scoreCheck :: "Pipe \<Rightarrow> nat \<Rightarrow> Pipe \<times> nat" where
  "scoreCheck p sc =
     (if \<not> scored p \<and> pipe_x p + PIPE_WIDTH < 50 then (p\<lparr>scored := True\<rparr>, sc + 1)
      else (p, sc))"

text \<open>
  The loop \<open>for (const pipe of state.pipes)\<close>: the pipes and the score after it, and
  whether it ended in a \<open>break\<close>, with \<open>gameOver\<close> set.
\<close>

fun checkPipes :: "Rect \<Rightarrow> Pipe list \<Rightarrow> nat \<Rightarrow> Pipe list \<times> nat \<times> bool" where
  "checkPipes br [] sc = ([], sc, False)"
| "checkPipes br (p # ps) sc =
     (let (p', sc') = scoreCheck p sc in
      if overlaps br (topPipeRect p') then (p' # ps, sc', True)
      else if overlaps br (bottomPipeRect p') then (p' # ps, sc', True)
      else let (ps', sc'', hit) = checkPipes br ps sc' in (p' # ps', sc'', hit))"

text \<open>The block \<open>if (!state.gameOver) { ... }\<close> of a frame with step multiplier \<open>dt\<close>.\<close>

definition simulate :: "real \<Rightarrow> real \<Rightarrow> GameState \<Rightarrow> GameState" where
  "simulate dt rnd s =
     (let v = velocity (bird s) + GRAVITY * dt;
          y = bird_y (bird s) + v * dt;
          fc = frameCount s + 1;
          fr = (if fc mod 5 = 0 then (bird_frame (bird s) + 1) mod 3 else bird_frame (bird s));
          (moved, rm) = advanceLoop dt 0 (pipes s);
          kept = spawn rnd (spliceLoop rm moved);
          (ps, sc, hit) = checkPipes (birdRect y) kept (score s);
          s1 = s\<lparr>bird := \<lparr>bird_y = y, velocity = v, bird_frame = fr\<rparr>, pipes := ps,
                 score := sc, frameCount := fc\<rparr>;
          s2 = (if hit then s1\<lparr>gameOver := True\<rparr> else s1)
      in if y > CANVAS_HEIGHT \<or> y < 0 then s2\<lparr>gameOver := True\<rparr> else s2)"

text \<open>\<open>gameLoop\<close>: one animation frame at time \<open>currentTime\<close>.\<close>

definition gameLoop :: "real \<Rightarrow> real \<Rightarrow> World \<Rightarrow> World" where
  "gameLoop currentTime rnd w =
     (let state = current w;
          dt = deltaTime currentTime (lastFrameTime w);
          w1 = w\<lparr>lastFrameTime := currentTime\<rparr>
      in if \<not> gameStarted state then w1
         else if \<not> gameOver state then mutate (simulate dt rnd) w1
         else w1)"

subsection \<open>The frame with the checks before the retirement\<close>


subsection \<open>Runs of the component\<close>

text \<open>
  What the browser can call: an animation frame (with its time stamp and the random
  number a spawn would draw), a click or a touch on the canvas, a key press (both with
  the clock's time), and the restart button.
\<close>

datatype Event =
  Frame real real
  | Click int
  | Touch int
  | Key string int
  | Restart

fun step :: "Event \<Rightarrow> World \<Rightarrow> World" where
  "step (Frame currentTime rnd) w = gameLoop currentTime rnd w"
| "step (Click now) w = handleCanvasClick now w"
| "step (Touch now) w = handleTouchStart now w"
| "step (Key code now) w = handleKeyPress code now w"
| "step Restart w = restartGame w"

definition run :: "Event list \<Rightarrow> World \<Rightarrow> World" where
  "run es w = fold step es w"

subsection \<open>Sample sessions\<close>

text \<open>A component whose only session object is \<open>s\<close>, at address 0.\<close>

definition worldOf :: "GameState \<Rightarrow> real \<Rightarrow> int \<Rightarrow> World" where
  "worldOf s lastT lastJ = \<lparr>heap = (\<lambda>a. s), gameStateRef = 0, nextAddr = 1,
     lastFrameTime = lastT, lastJumpTime = lastJ\<rparr>"

text \<open>A running session, the bird falling at 3 units a step, and one that is over.\<close>

definition flying :: GameState where
  "flying = \<lparr>bird = \<lparr>bird_y = 200, velocity = 3, bird_frame = 1\<rparr>,
     pipes = [\<lparr>pipe_x = 120, topHeight = 100, scored = False\<rparr>],
     score = 2, gameOver = False, gameStarted = True, frameCount = 311\<rparr>"

definition crashed :: GameState where
  "crashed = \<lparr>bird = \<lparr>bird_y = 520, velocity = 9, bird_frame = 2\<rparr>,
     pipes = [\<lparr>pipe_x = 120, topHeight = 100, scored = False\<rparr>],
     score = 7, gameOver = True, gameStarted = True, frameCount = 311\<rparr>"



definition passing :: GameState where
  "passing = \<lparr>bird = \<lparr>bird_y = 120, velocity = 0, bird_frame = 0\<rparr>,
     pipes = [\<lparr>pipe_x = - 1, topHeight = 100, scored = False\<rparr>],
     score = 4, gameOver = False, gameStarted = True, frameCount = 146\<rparr>"

definition grazing :: GameState where
  "grazing = \<lparr>bird = \<lparr>bird_y = 100, velocity = 0, bird_frame = 0\<rparr>,
     pipes = [\<lparr>pipe_x = 86, topHeight = 200, scored = False\<rparr>],
     score = 0, gameOver = False, gameStarted = True, frameCount = 101\<rparr>"

definition sinking :: GameState where
  "sinking = \<lparr>bird = \<lparr>bird_y = 2267 / 10, velocity = 0, bird_frame = 0\<rparr>,
     pipes = [\<lparr>pipe_x = 62, topHeight = 100, scored = False\<rparr>],
     score = 0, gameOver = False, gameStarted = True, frameCount = 113\<rparr>"

definition skimming :: GameState where
  "skimming = \<lparr>bird = \<lparr>bird_y = 2257 / 10, velocity = 0, bird_frame = 0\<rparr>,
     pipes = [\<lparr>pipe_x = 62, topHeight = 100, scored = False\<rparr>],
     score = 0, gameOver = False, gameStarted = True, frameCount = 113\<rparr>"

definition approaching :: GameState where
  "approaching = \<lparr>bird = \<lparr>bird_y = 100, velocity = 0, bird_frame = 0\<rparr>,
     pipes = [\<lparr>pipe_x = 85, topHeight = 200, scored = False\<rparr>],
     score = 0, gameOver = False, gameStarted = True, frameCount = 101\<rparr>"

text \<open>
  \<open>n\<close> animation frames 20 milliseconds apart, the first at time \<open>t\<close>, and a game
  played with them: the Space key starts it, the player clicks once every 49 frames,
  and after 170 frames the first pipe is about to leave the canvas.
\<close>

fun frames :: "nat \<Rightarrow> real \<Rightarrow> real \<Rightarrow> Event list" where
  "frames 0 t rnd = []"
| "frames (Suc n) t rnd = Frame t rnd # frames n (t + 20) rnd"

definition sampleRun :: "Event list" where
  "sampleRun = Key ''Space'' 1000 # Frame 1000 (1 / 8) # Click 2000 # frames 49 1020 (1 / 8) @
     Click 3000 # frames 49 2000 (1 / 8) @ Click 4000 # frames 49 2980 (1 / 8) @
     Click 5000 # frames 22 3960 (1 / 8)"

text \<open>A game in which the player never jumps: the bird falls out of the canvas.\<close>

definition crashRun :: "Event list" where
  "crashRun = Key ''Space'' 1000 # Frame 1000 (1 / 8) # frames 46 1020 (1 / 8)"

subsection \<open>Invariants of the runs\<close>

text \<open>
  Unless the game is over, every pipe whose trailing edge is left of the bird's anchor
  (x = 50) is scored.
\<close>

definition scoredBehind :: "GameState \<Rightarrow> bool" where
  "scoredBehind s \<longleftrightarrow>
     gameOver s \<or> list_all (\<lambda>p. scored p \<or> 50 \<le> pipe_x p + PIPE_WIDTH) (pipes s)"

text \<open>Before the game has started, no impulse has been accepted.\<close>

definition noImpulseYet :: "World \<Rightarrow> bool" where
  "noImpulseYet w \<longleftrightarrow> gameStarted (current w) \<or> lastJumpTime w = 0"

section \<open>Auxiliary facts\<close>

lemmas constants =
  GRAVITY_def JUMP_STRENGTH_def PIPE_WIDTH_def PIPE_GAP_def PIPE_SPEED_def BIRD_WIDTH_def
  BIRD_HEIGHT_def TARGET_FPS_def MAX_DELTA_TIME_def JUMP_COOLDOWN_def CANVAS_WIDTH_def
  CANVAS_HEIGHT_def

lemma current_mutate [simp]: "current (mutate f w) = f (current w)"
  by (simp add: current_def mutate_def)

lemma current_updates [simp]:
  "current (w\<lparr>lastFrameTime := a\<rparr>) = current w"
  "current (w\<lparr>lastJumpTime := b\<rparr>) = current w"
  by (simp_all add: current_def)

lemma mutate_fields [simp]:
  "lastFrameTime (mutate f w) = lastFrameTime w"
  "lastJumpTime (mutate f w) = lastJumpTime w"
  "gameStateRef (mutate f w) = gameStateRef w"
  "nextAddr (mutate f w) = nextAddr w"
  by (simp_all add: mutate_def)

lemma worldOf_fields [simp]:
  "current (worldOf s lastT lastJ) = s"
  "lastFrameTime (worldOf s lastT lastJ) = lastT"
  "lastJumpTime (worldOf s lastT lastJ) = lastJ"
  "gameStateRef (worldOf s lastT lastJ) = 0"
  "nextAddr (worldOf s lastT lastJ) = 1"
  "heap (worldOf s lastT lastJ) a = s"
  by (simp_all add: worldOf_def current_def)

lemma advanceLoop_fst: "fst (advanceLoop dt i ps) = map (movePipe dt) ps"
  by (induction ps arbitrary: i) (simp_all add: case_prod_beta Let_def)

lemma splice1_length: "splice1 (length pre) (pre @ x # xs) = pre @ xs"
  by (simp add: splice1_def)

text \<open>The two retirement loops keep the pipes that are not retired, in their order.\<close>

lemma spliceLoop_advanceLoop:
  "spliceLoop (snd (advanceLoop dt (length pre) ps)) (pre @ map (movePipe dt) ps) =
     pre @ filter (\<lambda>p. \<not> retired p) (map (movePipe dt) ps)"
proof (induction ps arbitrary: pre)
  case Nil
  then show ?case by (simp add: spliceLoop_def)
next
  case (Cons p ps)
  let ?p = "movePipe dt p"
  have IH: "spliceLoop (snd (advanceLoop dt (Suc (length pre)) ps))
      ((pre @ [?p]) @ map (movePipe dt) ps) =
     (pre @ [?p]) @ filter (\<lambda>p. \<not> retired p) (map (movePipe dt) ps)"
    using Cons.IH [of "pre @ [?p]"] by simp
  show ?case
  proof (cases "retired ?p")
    case True
    then have "snd (advanceLoop dt (length pre) (p # ps)) =
      length pre # snd (advanceLoop dt (Suc (length pre)) ps)"
      by (simp add: case_prod_beta Let_def)
    then show ?thesis using IH True
      by (simp add: spliceLoop_def splice1_length)
  next
    case False
    then have "snd (advanceLoop dt (length pre) (p # ps)) =
      snd (advanceLoop dt (Suc (length pre)) ps)"
      by (simp add: case_prod_beta Let_def)
    then show ?thesis using IH False
      by (simp add: spliceLoop_def)
  qed
qed

lemma retire_filter:
  "(case advanceLoop dt 0 ps of (moved, rm) \<Rightarrow> spliceLoop rm moved) =
     filter (\<lambda>p. \<not> retired p) (map (movePipe dt) ps)"
  using spliceLoop_advanceLoop [of dt "[]" ps] advanceLoop_fst [of dt 0 ps]
  by (simp add: case_prod_beta)

text \<open>The fields of a session after the frame block, with the retirement loops as a filter.\<close>

lemma simulate_fields:
  fixes dt rnd s
  defines "v \<equiv> velocity (bird s) + GRAVITY * dt"
  defines "y \<equiv> bird_y (bird s) + v * dt"
  defines "r \<equiv> checkPipes (birdRect y)
     (spawn rnd (filter (\<lambda>p. \<not> retired p) (map (movePipe dt) (pipes s)))) (score s)"
  shows "pipes (simulate dt rnd s) = fst r"
    and "score (simulate dt rnd s) = fst (snd r)"
    and "gameOver (simulate dt rnd s) \<longleftrightarrow> gameOver s \<or> snd (snd r) \<or> y > CANVAS_HEIGHT \<or> y < 0"
    and "gameStarted (simulate dt rnd s) = gameStarted s"
    and "velocity (bird (simulate dt rnd s)) = v"
    and "bird_y (bird (simulate dt rnd s)) = y"
    and "frameCount (simulate dt rnd s) = frameCount s + 1"
  using retire_filter [of dt "pipes s"]
  by (auto simp add: simulate_def Let_def case_prod_beta v_def y_def r_def)

lemma checkPipes_scored:
  "\<not> snd (snd (checkPipes br ps sc)) \<Longrightarrow> p \<in> set (fst (checkPipes br ps sc)) \<Longrightarrow>
     scored p \<or> 50 \<le> pipe_x p + PIPE_WIDTH"
proof (induction ps arbitrary: sc)
  case Nil
  then show ?case by simp
next
  case (Cons q ps)
  obtain q' sc' where q: "scoreCheck q sc = (q', sc')" by (cases "scoreCheck q sc")
  have q': "scored q' \<or> 50 \<le> pipe_x q' + PIPE_WIDTH"
    using q by (auto simp add: scoreCheck_def split: if_splits)
  from Cons.prems q have nohit: "\<not> snd (snd (checkPipes br ps sc'))"
    and mem: "p = q' \<or> p \<in> set (fst (checkPipes br ps sc'))"
    by (auto simp add: case_prod_beta split: if_splits)
  from mem show ?case
  proof
    assume "p = q'" with q' show ?thesis by simp
  next
    assume "p \<in> set (fst (checkPipes br ps sc'))"
    with nohit show ?thesis by (rule Cons.IH)
  qed
qed

lemma scoredBehind_simulate: "scoredBehind (simulate dt rnd s)"
proof (cases "gameOver (simulate dt rnd s)")
  case True
  then show ?thesis by (simp add: scoredBehind_def)
next
  case False
  then have "scored p \<or> 50 \<le> pipe_x p + PIPE_WIDTH" if "p \<in> set (pipes (simulate dt rnd s))" for p
    using that by (intro checkPipes_scored) (simp_all add: simulate_fields)
  then show ?thesis by (simp add: scoredBehind_def list_all_iff)
qed

lemma scoredBehind_step: "scoredBehind (current w) \<Longrightarrow> scoredBehind (current (step e w))"
proof (cases e)
  case (Frame t rnd)
  then show "scoredBehind (current w) \<Longrightarrow> scoredBehind (current (step e w))"
    by (simp add: gameLoop_def Let_def scoredBehind_simulate)
next
  case (Click now)
  then show "scoredBehind (current w) \<Longrightarrow> scoredBehind (current (step e w))"
    by (auto simp add: handleCanvasClick_def jump_def Let_def scoredBehind_def)
next
  case (Touch now)
  then show "scoredBehind (current w) \<Longrightarrow> scoredBehind (current (step e w))"
    by (auto simp add: handleTouchStart_def jump_def Let_def scoredBehind_def)
next
  case (Key code now)
  then show "scoredBehind (current w) \<Longrightarrow> scoredBehind (current (step e w))"
    by (auto simp add: handleKeyPress_def jump_def Let_def scoredBehind_def)
next
  case Restart
  then show "scoredBehind (current w) \<Longrightarrow> scoredBehind (current (step e w))"
    by (simp add: restartGame_def current_def restartState_def scoredBehind_def)
qed

lemma scoredBehind_run: "scoredBehind (current w) \<Longrightarrow> scoredBehind (current (run es w))"
  unfolding run_def by (induction es arbitrary: w) (simp_all add: scoredBehind_step)

lemma scoredBehind_initial: "scoredBehind (current initialWorld)"
  by (simp add: scoredBehind_def initialWorld_def initialState_def current_def)

lemma advanceLoop_rm:
  "i \<in> set (snd (advanceLoop dt k ps)) \<longleftrightarrow>
     k \<le> i \<and> i < k + length ps \<and> retired (movePipe dt (ps ! (i - k)))"
proof (induction ps arbitrary: k)
  case Nil
  then show ?case by simp
next
  case (Cons p ps)
  show ?case
  proof (cases "i = k")
    case True
    then show ?thesis using Cons.IH [of "Suc k"] by (auto simp add: case_prod_beta Let_def)
  next
    case False
    then have "(i - k) = Suc (i - Suc k) \<or> i < k" by arith
    then show ?thesis using Cons.IH [of "Suc k"] False
      by (auto simp add: case_prod_beta Let_def)
  qed
qed

lemma scoreCheck_again: "scoreCheck (fst (scoreCheck p sc)) n = (fst (scoreCheck p sc), n)"
  by (simp add: scoreCheck_def)

lemma scoreCheck_twice:
  "scoreCheck (fst (scoreCheck p sc)) (snd (scoreCheck p sc)) = scoreCheck p sc"
  by (simp add: scoreCheck_again)

lemma scoreCheck_rects:
  "topPipeRect (fst (scoreCheck p sc)) = topPipeRect p"
  "bottomPipeRect (fst (scoreCheck p sc)) = bottomPipeRect p"
  by (simp_all add: scoreCheck_def topPipeRect_def bottomPipeRect_def)

lemma checkPipes_twice:
  "checkPipes br (fst (checkPipes br ps sc)) (fst (snd (checkPipes br ps sc))) =
     checkPipes br ps sc"
proof (induction ps arbitrary: sc)
  case Nil
  then show ?case by simp
next
  case (Cons q ps)
  let ?q = "fst (scoreCheck q sc)" and ?sc = "snd (scoreCheck q sc)"
  show ?case
  proof (cases "overlaps br (topPipeRect q) \<or> overlaps br (bottomPipeRect q)")
    case True
    then show ?thesis
      by (auto simp add: case_prod_beta scoreCheck_rects scoreCheck_again)
  next
    case False
    then show ?thesis
      using Cons.IH [of ?sc]
      by (simp add: case_prod_beta scoreCheck_rects scoreCheck_again)
  qed
qed

lemma checkPipes_count:
  "\<not> snd (snd (checkPipes br ps sc)) \<Longrightarrow>
     fst (snd (checkPipes br ps sc)) =
       sc + length (filter (\<lambda>p. \<not> scored p \<and> pipe_x p + PIPE_WIDTH < 50) ps)"
proof (induction ps arbitrary: sc)
  case Nil
  then show ?case by simp
next
  case (Cons q ps)
  from Cons.prems have nohit: "\<not> snd (snd (checkPipes br ps (snd (scoreCheck q sc))))"
    and eq: "fst (snd (checkPipes br (q # ps) sc)) =
      fst (snd (checkPipes br ps (snd (scoreCheck q sc))))"
    by (auto simp add: case_prod_beta split: if_splits)
  show ?case
    unfolding eq Cons.IH [OF nohit] by (simp add: scoreCheck_def)
qed

lemma checkPipes_hit:
  "snd (snd (checkPipes br ps sc)) \<longleftrightarrow>
     (\<exists>p \<in> set ps. overlaps br (topPipeRect p) \<or> overlaps br (bottomPipeRect p))"
  by (induction ps arbitrary: sc)
    (auto simp add: case_prod_beta scoreCheck_def topPipeRect_def bottomPipeRect_def)









lemma fresh_step: "gameStateRef w < nextAddr w \<Longrightarrow> gameStateRef (step e w) < nextAddr (step e w)"
  by (cases e)
    (auto simp add: gameLoop_def handleCanvasClick_def handleTouchStart_def handleKeyPress_def
      jump_def Let_def restartGame_def)

lemma fresh_run: "gameStateRef w < nextAddr w \<Longrightarrow> gameStateRef (run es w) < nextAddr (run es w)"
  unfolding run_def by (induction es arbitrary: w) (simp_all add: fresh_step)

lemma fresh_initial: "gameStateRef initialWorld < nextAddr initialWorld"
  by (simp add: initialWorld_def)

lemma frames_numeral:
  "frames (numeral k) t rnd = Frame t rnd # frames (pred_numeral k) (t + 20) rnd"
  by (simp add: numeral_eq_Suc)

lemmas game_defs =
  gameLoop_def jump_def Let_def simulate_def deltaTime_def spawn_def scoreCheck_def
  overlaps_def birdRect_def topPipeRect_def bottomPipeRect_def spliceLoop_def splice1_def
  movePipe_def retired_def phase_def handleKeyPress_def handleCanvasClick_def
  handleTouchStart_def restartGame_def initialWorld_def initialState_def current_def
  mutate_def run_def constants

lemma sampleRun_state:
  "current (run sampleRun initialWorld) =
     \<lparr>bird = \<lparr>bird_y = 1109 / 10, velocity = - (9 / 10), bird_frame = 1\<rparr>,
      pipes = [\<lparr>pipe_x = - 50, topHeight = 331 / 4, scored = True\<rparr>,
               \<lparr>pipe_x = 152, topHeight = 331 / 4, scored = False\<rparr>],
      score = 1, gameOver = False, gameStarted = True, frameCount = 170\<rparr>"
  by (simp add: sampleRun_def game_defs frames_numeral)

lemma crashRun_state:
  "current (run crashRun initialWorld) =
     \<lparr>bird = \<lparr>bird_y = 5243 / 10, velocity = 69 / 5, bird_frame = 0\<rparr>,
      pipes = [\<lparr>pipe_x = 196, topHeight = 331 / 4, scored = False\<rparr>],
      score = 0, gameOver = True, gameStarted = True, frameCount = 47\<rparr>"
  "gameStateRef (run crashRun initialWorld) = 0"
  "nextAddr (run crashRun initialWorld) = 1"
  by (simp_all add: crashRun_def game_defs frames_numeral)

lemma lastJumpTime_gameLoop [simp]: "lastJumpTime (gameLoop t rnd w) = lastJumpTime w"
  by (simp add: gameLoop_def Let_def)

lemma gameStarted_step: "gameStarted (current w) \<Longrightarrow> gameStarted (current (step e w))"
proof (cases e)
  case Restart
  then show ?thesis by (simp add: restartGame_def current_def restartState_def)
qed (auto simp add: gameLoop_def handleCanvasClick_def handleTouchStart_def handleKeyPress_def
      jump_def Let_def simulate_fields)

lemma lastJumpTime_step:
  "gameStarted (current (step e w)) \<or> lastJumpTime (step e w) = lastJumpTime w"
proof (cases e)
  case Restart
  then show ?thesis by (simp add: restartGame_def current_def restartState_def)
qed (auto simp add: gameLoop_def handleCanvasClick_def handleTouchStart_def handleKeyPress_def
      jump_def Let_def)

lemma noImpulseYet_step: "noImpulseYet w \<Longrightarrow> noImpulseYet (step e w)"
  unfolding noImpulseYet_def
  using gameStarted_step [of w e] lastJumpTime_step [of e w] by auto

lemma noImpulseYet_run: "noImpulseYet w \<Longrightarrow> noImpulseYet (run es w)"
  unfolding run_def by (induction es arbitrary: w) (simp_all add: noImpulseYet_step)

lemma noImpulseYet_initial: "noImpulseYet initialWorld"
  by (simp add: noImpulseYet_def initialWorld_def)

section \<open>The order of retirement and checks (C1)\<close>



section \<open>The step multiplier (C2)\<close>



section \<open>Collisions with pipes (C3)\<close>

text \<open>
  C3. The bird is the rectangle of width 34 and height 24 at x = 50 and its own y; the
  upper part of a pipe is the rectangle of width 52 from y = 0 down to the top of the
  gap, the lower part the one from the bottom of the gap (150 below its top) down to
  y = 512. The overlap test is strict on all four sides, for the bird against either
  part. Rectangles that touch on a side (the left side of one at the right side of the
  other, or the top of one at the bottom of the other) do not overlap. Rectangles that
  overlap on one axis and reach one unit into each other on the other axis do overlap
  (their sizes on that axis adding up to more than the unit). The loop over the pipes
  ends in a \<open>break\<close> exactly when the bird's rectangle overlaps the upper or the lower
  rectangle of some pipe. A frame of a running game ends in phase Over when this
  happens or the bird has left the canvas, and in phase Running otherwise: touching a
  pipe does not end the game.
\<close>

theorem collision_strict:
  "birdRect y = \<lparr>rect_x = 50, rect_y = y, width = 34, height = 24\<rparr> \<and>
   topPipeRect p = \<lparr>rect_x = pipe_x p, rect_y = 0, width = 52, height = topHeight p\<rparr> \<and>
   bottomPipeRect p = \<lparr>rect_x = pipe_x p, rect_y = topHeight p + 150, width = 52,
     height = 512 - topHeight p - 150\<rparr> \<and>
   (overlaps (birdRect y) (topPipeRect p) \<longleftrightarrow>
      50 < pipe_x p + 52 \<and> pipe_x p < 50 + 34 \<and> y < topHeight p \<and> 0 < y + 24) \<and>
   (overlaps (birdRect y) (bottomPipeRect p) \<longleftrightarrow>
      50 < pipe_x p + 52 \<and> pipe_x p < 50 + 34 \<and> y < 512 \<and> topHeight p + 150 < y + 24) \<and>
   (rect_x a = rect_x b + width b \<or> rect_x a + width a = rect_x b \<or>
    rect_y a = rect_y b + height b \<or> rect_y a + height a = rect_y b \<longrightarrow>
      \<not> overlaps a b) \<and>
   (1 < width a + width b \<and> rect_y a < rect_y b + height b \<and> rect_y b < rect_y a + height a \<and>
    (rect_x a + 1 = rect_x b + width b \<or> rect_x a + width a = rect_x b + 1) \<longrightarrow>
      overlaps a b) \<and>
   (1 < height a + height b \<and> rect_x a < rect_x b + width b \<and> rect_x b < rect_x a + width a \<and>
    (rect_y a + 1 = rect_y b + height b \<or> rect_y a + height a = rect_y b + 1) \<longrightarrow>
      overlaps a b) \<and>
   (snd (snd (checkPipes br ps sc)) \<longleftrightarrow>
      (\<exists>p \<in> set ps. overlaps br (topPipeRect p) \<or> overlaps br (bottomPipeRect p))) \<and>
   (phase s = Some Running \<longrightarrow>
      phase (simulate dt rnd s) =
        (if (\<exists>p \<in> set (spawn rnd (filter (\<lambda>p. \<not> retired p) (map (movePipe dt) (pipes s)))).
               overlaps (birdRect (bird_y (bird s) + (velocity (bird s) + GRAVITY * dt) * dt))
                 (topPipeRect p) \<or>
               overlaps (birdRect (bird_y (bird s) + (velocity (bird s) + GRAVITY * dt) * dt))
                 (bottomPipeRect p)) \<or>
            512 < bird_y (bird s) + (velocity (bird s) + GRAVITY * dt) * dt \<or>
            bird_y (bird s) + (velocity (bird s) + GRAVITY * dt) * dt < 0
         then Some Over else Some Running))"
proof -
  have 0: "birdRect y = \<lparr>rect_x = 50, rect_y = y, width = 34, height = 24\<rparr> \<and>
   topPipeRect p = \<lparr>rect_x = pipe_x p, rect_y = 0, width = 52, height = topHeight p\<rparr> \<and>
   bottomPipeRect p = \<lparr>rect_x = pipe_x p, rect_y = topHeight p + 150, width = 52,
     height = 512 - topHeight p - 150\<rparr>"
    by (simp add: birdRect_def topPipeRect_def bottomPipeRect_def constants)
  have t: "overlaps (birdRect y) (topPipeRect p) \<longleftrightarrow>
      50 < pipe_x p + 52 \<and> pipe_x p < 50 + 34 \<and> y < topHeight p \<and> 0 < y + 24"
    by (simp add: overlaps_def birdRect_def topPipeRect_def constants)
  have b: "overlaps (birdRect y) (bottomPipeRect p) \<longleftrightarrow>
      50 < pipe_x p + 52 \<and> pipe_x p < 50 + 34 \<and> y < 512 \<and> topHeight p + 150 < y + 24"
    by (simp add: overlaps_def birdRect_def bottomPipeRect_def constants)
  have 1: "\<not> overlaps a b"
    if "rect_x a = rect_x b + width b \<or> rect_x a + width a = rect_x b \<or>
      rect_y a = rect_y b + height b \<or> rect_y a + height a = rect_y b"
    using that by (auto simp add: overlaps_def)
  have 2: "overlaps a b"
    if "1 < width a + width b \<and> rect_y a < rect_y b + height b \<and>
      rect_y b < rect_y a + height a \<and>
      (rect_x a + 1 = rect_x b + width b \<or> rect_x a + width a = rect_x b + 1)"
    using that unfolding overlaps_def by linarith
  have 3: "overlaps a b"
    if "1 < height a + height b \<and> rect_x a < rect_x b + width b \<and>
      rect_x b < rect_x a + width a \<and>
      (rect_y a + 1 = rect_y b + height b \<or> rect_y a + height a = rect_y b + 1)"
    using that unfolding overlaps_def by linarith
  have 5: "phase (simulate dt rnd s) =
        (if (\<exists>p \<in> set (spawn rnd (filter (\<lambda>p. \<not> retired p) (map (movePipe dt) (pipes s)))).
               overlaps (birdRect (bird_y (bird s) + (velocity (bird s) + GRAVITY * dt) * dt))
                 (topPipeRect p) \<or>
               overlaps (birdRect (bird_y (bird s) + (velocity (bird s) + GRAVITY * dt) * dt))
                 (bottomPipeRect p)) \<or>
            512 < bird_y (bird s) + (velocity (bird s) + GRAVITY * dt) * dt \<or>
            bird_y (bird s) + (velocity (bird s) + GRAVITY * dt) * dt < 0
         then Some Over else Some Running)"
    if "phase s = Some Running"
  proof -
    from that have "gameStarted s" "\<not> gameOver s" by (auto simp add: phase_def split: if_splits)
    then show ?thesis
      by (simp add: phase_def simulate_fields checkPipes_hit constants)
  qed
  from 0 t b 1 2 3 5 checkPipes_hit [of br ps sc] show ?thesis by blast
qed

theorem collision_strict_witness:
  "rect_x (birdRect 100) + width (birdRect 100) =
     rect_x (topPipeRect \<lparr>pipe_x = 84, topHeight = 200, scored = False\<rparr>) \<and>
   \<not> overlaps (birdRect 100) (topPipeRect \<lparr>pipe_x = 84, topHeight = 200, scored = False\<rparr>) \<and>
   rect_x (birdRect 100) + width (birdRect 100) =
     rect_x (topPipeRect \<lparr>pipe_x = 83, topHeight = 200, scored = False\<rparr>) + 1 \<and>
   overlaps (birdRect 100) (topPipeRect \<lparr>pipe_x = 83, topHeight = 200, scored = False\<rparr>) \<and>
   rect_y (birdRect 200) =
     rect_y (topPipeRect \<lparr>pipe_x = 60, topHeight = 200, scored = False\<rparr>) +
     height (topPipeRect \<lparr>pipe_x = 60, topHeight = 200, scored = False\<rparr>) \<and>
   \<not> overlaps (birdRect 200) (topPipeRect \<lparr>pipe_x = 60, topHeight = 200, scored = False\<rparr>) \<and>
   overlaps (birdRect 199) (topPipeRect \<lparr>pipe_x = 60, topHeight = 200, scored = False\<rparr>) \<and>
   rect_y (birdRect 226) + height (birdRect 226) =
     rect_y (bottomPipeRect \<lparr>pipe_x = 60, topHeight = 100, scored = False\<rparr>) \<and>
   \<not> overlaps (birdRect 226) (bottomPipeRect \<lparr>pipe_x = 60, topHeight = 100, scored = False\<rparr>) \<and>
   rect_y (birdRect 227) + height (birdRect 227) =
     rect_y (bottomPipeRect \<lparr>pipe_x = 60, topHeight = 100, scored = False\<rparr>) + 1 \<and>
   overlaps (birdRect 227) (bottomPipeRect \<lparr>pipe_x = 60, topHeight = 100, scored = False\<rparr>) \<and>
   \<not> overlaps (birdRect 227) (topPipeRect \<lparr>pipe_x = 60, topHeight = 100, scored = False\<rparr>) \<and>
   rect_x (birdRect 300) =
     rect_x (bottomPipeRect \<lparr>pipe_x = - 2, topHeight = 100, scored = False\<rparr>) +
     width (bottomPipeRect \<lparr>pipe_x = - 2, topHeight = 100, scored = False\<rparr>) \<and>
   \<not> overlaps (birdRect 300) (bottomPipeRect \<lparr>pipe_x = - 2, topHeight = 100, scored = False\<rparr>) \<and>
   overlaps (birdRect 300) (bottomPipeRect \<lparr>pipe_x = - 1, topHeight = 100, scored = False\<rparr>) \<and>
   snd (snd (checkPipes (birdRect 227)
     [\<lparr>pipe_x = 60, topHeight = 100, scored = False\<rparr>] 0)) \<and>
   \<not> snd (snd (checkPipes (birdRect 226)
     [\<lparr>pipe_x = 60, topHeight = 100, scored = False\<rparr>] 0)) \<and>
   phase approaching = Some Running \<and> phase (simulate 1 (1 / 2) approaching) = Some Over \<and>
   phase grazing = Some Running \<and> phase (simulate 1 (1 / 2) grazing) = Some Running \<and>
   phase sinking = Some Running \<and> phase (simulate 1 (1 / 2) sinking) = Some Over \<and>
   phase skimming = Some Running \<and> phase (simulate 1 (1 / 2) skimming) = Some Running"
proof -
  let ?u84 = "\<lparr>pipe_x = 84, topHeight = 200, scored = False\<rparr>"
  let ?u83 = "\<lparr>pipe_x = 83, topHeight = 200, scored = False\<rparr>"
  let ?u60 = "\<lparr>pipe_x = 60, topHeight = 200, scored = False\<rparr>"
  let ?l60 = "\<lparr>pipe_x = 60, topHeight = 100, scored = False\<rparr>"
  let ?l2 = "\<lparr>pipe_x = - 2, topHeight = 100, scored = False\<rparr>"
  let ?l1 = "\<lparr>pipe_x = - 1, topHeight = 100, scored = False\<rparr>"
  have rects: "birdRect v = \<lparr>rect_x = 50, rect_y = v, width = 34, height = 24\<rparr>"
    "topPipeRect q = \<lparr>rect_x = pipe_x q, rect_y = 0, width = 52, height = topHeight q\<rparr>"
    "bottomPipeRect q = \<lparr>rect_x = pipe_x q, rect_y = topHeight q + 150, width = 52,
       height = 512 - topHeight q - 150\<rparr>" for v q
    using collision_strict [of v q] by blast+
  have ov: "overlaps (birdRect v) (topPipeRect q) \<longleftrightarrow>
      50 < pipe_x q + 52 \<and> pipe_x q < 50 + 34 \<and> v < topHeight q \<and> 0 < v + 24"
    "overlaps (birdRect v) (bottomPipeRect q) \<longleftrightarrow>
      50 < pipe_x q + 52 \<and> pipe_x q < 50 + 34 \<and> v < 512 \<and> topHeight q + 150 < v + 24"
    for v q
    using collision_strict [of v q "birdRect v" "topPipeRect q" "birdRect v" "[]" 0 grazing 0 0]
    by blast+
  have loop: "snd (snd (checkPipes br ps sc)) \<longleftrightarrow>
      (\<exists>p \<in> set ps. overlaps br (topPipeRect p) \<or> overlaps br (bottomPipeRect p))"
    for br ps sc
    using collision_strict [of 0 ?l60 br br br ps sc grazing 0 0] by blast
  have frame: "phase (simulate dt rnd s) =
        (if (\<exists>p \<in> set (spawn rnd (filter (\<lambda>p. \<not> retired p) (map (movePipe dt) (pipes s)))).
               overlaps (birdRect (bird_y (bird s) + (velocity (bird s) + GRAVITY * dt) * dt))
                 (topPipeRect p) \<or>
               overlaps (birdRect (bird_y (bird s) + (velocity (bird s) + GRAVITY * dt) * dt))
                 (bottomPipeRect p)) \<or>
            512 < bird_y (bird s) + (velocity (bird s) + GRAVITY * dt) * dt \<or>
            bird_y (bird s) + (velocity (bird s) + GRAVITY * dt) * dt < 0
         then Some Over else Some Running)" if "phase s = Some Running" for s dt rnd
    using collision_strict [of 0 ?l60 "birdRect 0" "birdRect 0" "birdRect 0" "[]" 0 s dt rnd] that
    by blast
  have a: "rect_x (birdRect 100) + width (birdRect 100) = rect_x (topPipeRect ?u84)"
    "rect_x (birdRect 100) + width (birdRect 100) = rect_x (topPipeRect ?u83) + 1"
    "rect_y (birdRect 200) = rect_y (topPipeRect ?u60) + height (topPipeRect ?u60)"
    "rect_y (birdRect 226) + height (birdRect 226) = rect_y (bottomPipeRect ?l60)"
    "rect_y (birdRect 227) + height (birdRect 227) = rect_y (bottomPipeRect ?l60) + 1"
    "rect_x (birdRect 300) = rect_x (bottomPipeRect ?l2) + width (bottomPipeRect ?l2)"
    by (simp_all add: rects)
  from collision_strict [of 100 ?u84 "birdRect 100" "topPipeRect ?u84"] a(1)
  have 1: "\<not> overlaps (birdRect 100) (topPipeRect ?u84)" by blast
  have "1 < width (birdRect 100) + width (topPipeRect ?u83) \<and>
    rect_y (birdRect 100) < rect_y (topPipeRect ?u83) + height (topPipeRect ?u83) \<and>
    rect_y (topPipeRect ?u83) < rect_y (birdRect 100) + height (birdRect 100)"
    by (simp add: rects)
  with collision_strict [of 100 ?u83 "birdRect 100" "topPipeRect ?u83"] a(2)
  have 2: "overlaps (birdRect 100) (topPipeRect ?u83)" by blast
  from collision_strict [of 200 ?u60 "birdRect 200" "topPipeRect ?u60"] a(3)
  have 3: "\<not> overlaps (birdRect 200) (topPipeRect ?u60)" by blast
  have 4: "overlaps (birdRect 199) (topPipeRect ?u60)" by (simp add: ov)
  from collision_strict [of 226 ?l60 "birdRect 226" "bottomPipeRect ?l60"] a(4)
  have 5: "\<not> overlaps (birdRect 226) (bottomPipeRect ?l60)" by blast
  have "1 < height (birdRect 227) + height (bottomPipeRect ?l60) \<and>
    rect_x (birdRect 227) < rect_x (bottomPipeRect ?l60) + width (bottomPipeRect ?l60) \<and>
    rect_x (bottomPipeRect ?l60) < rect_x (birdRect 227) + width (birdRect 227)"
    by (simp add: rects)
  with collision_strict [of 227 ?l60 "birdRect 227" "bottomPipeRect ?l60"] a(5)
  have 6: "overlaps (birdRect 227) (bottomPipeRect ?l60)" by blast
  have 7: "\<not> overlaps (birdRect 227) (topPipeRect ?l60)" by (simp add: ov)
  from collision_strict [of 300 ?l2 "birdRect 300" "bottomPipeRect ?l2"] a(6)
  have 8: "\<not> overlaps (birdRect 300) (bottomPipeRect ?l2)" by blast
  have 9: "overlaps (birdRect 300) (bottomPipeRect ?l1)" by (simp add: ov)
  have 10: "snd (snd (checkPipes (birdRect 227) [?l60] 0))"
    using 6 unfolding loop by simp
  have 11: "\<not> snd (snd (checkPipes (birdRect 226) [?l60] 0))"
    using 5 unfolding loop by (simp add: ov)
  have p: "phase approaching = Some Running" "phase grazing = Some Running"
    "phase sinking = Some Running" "phase skimming = Some Running"
    by (simp_all add: phase_def approaching_def grazing_def sinking_def skimming_def)
  have f: "phase (simulate 1 (1 / 2) approaching) = Some Over"
    "phase (simulate 1 (1 / 2) grazing) = Some Running"
    "phase (simulate 1 (1 / 2) sinking) = Some Over"
    "phase (simulate 1 (1 / 2) skimming) = Some Running"
    unfolding frame [OF p(1)] frame [OF p(2)] frame [OF p(3)] frame [OF p(4)]
    by (simp_all add: approaching_def grazing_def sinking_def skimming_def spawn_def
        movePipe_def retired_def ov constants)
  from a 1 2 3 4 5 6 7 8 9 10 11 p f show ?thesis by blast
qed

section \<open>The impulse cooldown (C4)\<close>

text \<open>
  C4. \<open>jump\<close> called less than \<open>JUMP_COOLDOWN\<close> = 200 milliseconds of the clock after
  the last accepted call returns the component as it was; a call 200 milliseconds or
  more after it is accepted and becomes the last accepted one. Frames do not touch the
  time of the last accepted call, whatever their step multiplier. So after an accepted
  call at time \<open>now\<close> and a frame, a call at \<open>now + 50\<close> changes nothing, and a call at
  \<open>now + 250\<close> is accepted and, the game still running, sets the velocity again.
\<close>

theorem impulse_cooldown:
  "(now - lastJumpTime w < JUMP_COOLDOWN \<longrightarrow> jump now w = w) \<and>
   (JUMP_COOLDOWN \<le> now - lastJumpTime w \<longrightarrow> lastJumpTime (jump now w) = now) \<and>
   lastJumpTime (gameLoop t rnd w) = lastJumpTime w \<and>
   (JUMP_COOLDOWN \<le> now - lastJumpTime w \<longrightarrow>
      jump (now + 50) (gameLoop t rnd (jump now w)) = gameLoop t rnd (jump now w) \<and>
      lastJumpTime (jump (now + 250) (gameLoop t rnd (jump now w))) = now + 250 \<and>
      (phase (current (gameLoop t rnd (jump now w))) = Some Running \<longrightarrow>
         velocity (bird (current (jump (now + 250) (gameLoop t rnd (jump now w))))) =
           - JUMP_STRENGTH))"
proof -
  have rej: "jump n v = v" if "n - lastJumpTime v < JUMP_COOLDOWN" for n v
    using that by (simp add: jump_def)
  have acc: "lastJumpTime (jump n v) = n" if "JUMP_COOLDOWN \<le> n - lastJumpTime v" for n v
    using that by (simp add: jump_def Let_def)
  have vel: "velocity (bird (current (jump n v))) = - JUMP_STRENGTH"
    if "JUMP_COOLDOWN \<le> n - lastJumpTime v" "phase (current v) = Some Running" for n v
    using that by (auto simp add: jump_def Let_def phase_def split: if_splits)
  show ?thesis
  proof (intro conjI impI)
    assume "now - lastJumpTime w < JUMP_COOLDOWN"
    then show "jump now w = w" by (rule rej)
  next
    assume "JUMP_COOLDOWN \<le> now - lastJumpTime w"
    then show "lastJumpTime (jump now w) = now" by (rule acc)
  next
    show "lastJumpTime (gameLoop t rnd w) = lastJumpTime w" by simp
  next
    assume a: "JUMP_COOLDOWN \<le> now - lastJumpTime w"
    let ?w = "gameLoop t rnd (jump now w)"
    have l: "lastJumpTime (jump now w) = now" by (rule acc [OF a])
    show "jump (now + 50) ?w = ?w"
      by (rule rej) (simp add: l constants)
    show "lastJumpTime (jump (now + 250) ?w) = now + 250"
      by (rule acc) (simp add: l constants)
    assume "phase (current ?w) = Some Running"
    then show "velocity (bird (current (jump (now + 250) ?w))) = - JUMP_STRENGTH"
      by (rule vel [rotated]) (simp add: l constants)
  qed
qed

theorem impulse_cooldown_witness:
  "JUMP_COOLDOWN \<le> 5000 - lastJumpTime (worldOf flying 1000 0) \<and>
   velocity (bird (current (jump 5000 (worldOf flying 1000 0)))) = - (15 / 2) \<and>
   phase (current (gameLoop 1020 (1 / 2) (jump 5000 (worldOf flying 1000 0)))) =
     Some Running \<and>
   velocity (bird (current (gameLoop 1020 (1 / 2) (jump 5000 (worldOf flying 1000 0))))) =
     - (36 / 5) \<and>
   5050 - lastJumpTime (gameLoop 1020 (1 / 2) (jump 5000 (worldOf flying 1000 0))) <
     JUMP_COOLDOWN \<and>
   velocity (bird (current (jump (5000 + 50)
     (gameLoop 1020 (1 / 2) (jump 5000 (worldOf flying 1000 0)))))) = - (36 / 5) \<and>
   velocity (bird (current (jump (5000 + 250)
     (gameLoop 1020 (1 / 2) (jump 5000 (worldOf flying 1000 0)))))) = - (15 / 2)"
proof -
  let ?w = "worldOf flying 1000 0"
  let ?v = "gameLoop 1020 (1 / 2) (jump 5000 ?w)"
  have c: "JUMP_COOLDOWN \<le> 5000 - lastJumpTime ?w" by (simp add: constants)
  have j: "velocity (bird (current (jump 5000 ?w))) = - (15 / 2)"
    by (simp add: game_defs worldOf_def flying_def)
  have p: "phase (current ?v) = Some Running"
    and v: "velocity (bird (current ?v)) = - (36 / 5)"
    and l: "5050 - lastJumpTime ?v < JUMP_COOLDOWN"
    by (simp_all add: game_defs worldOf_def flying_def)
  note T = impulse_cooldown [of 5000 ?w 1020 "1 / 2"]
  note U = impulse_cooldown [of 5050 ?v]
  from T c have a: "jump (5000 + 50) ?v = ?v" by blast
  from T c p have b: "velocity (bird (current (jump (5000 + 250) ?v))) = - JUMP_STRENGTH"
    by blast
  from U l have d: "jump 5050 ?v = ?v" by blast
  from b have b': "velocity (bird (current (jump (5000 + 250) ?v))) = - (15 / 2)"
    by (simp only: JUMP_STRENGTH_def)
  from c j p v l a b' show ?thesis by (simp only: simp_thms)
qed

section \<open>The bounds of the canvas (C5)\<close>




section \<open>Scoring (C6)\<close>

text \<open>
  C6. The scoring check of a pipe sets \<open>scored\<close> and adds one to the score when the
  pipe is not yet scored and its trailing edge is left of the bird's anchor (x = 50),
  and changes nothing otherwise. Checking the same pipe again changes neither the pipe
  nor the score, so two checks of a passing pipe add exactly one. The same holds for
  the whole loop over the pipes: run again on the pipes and the score it returned, it
  returns them unchanged; and a loop that finds no collision adds one for each pipe
  that is unscored and past the anchor. So a frame that does not end the game adds one
  to the score for each pipe that is past the anchor for the first time, and leaves
  every pipe past the anchor scored.
\<close>

theorem scoring_idempotent:
  "scoreCheck p sc =
     (p\<lparr>scored := scored p \<or> pipe_x p + PIPE_WIDTH < 50\<rparr>,
      if \<not> scored p \<and> pipe_x p + PIPE_WIDTH < 50 then sc + 1 else sc) \<and>
   scoreCheck (fst (scoreCheck p sc)) (snd (scoreCheck p sc)) = scoreCheck p sc \<and>
   (\<not> scored p \<and> pipe_x p + PIPE_WIDTH < 50 \<longrightarrow>
      scored (fst (scoreCheck p sc)) \<and> snd (scoreCheck p sc) = sc + 1 \<and>
      snd (scoreCheck (fst (scoreCheck p sc)) (snd (scoreCheck p sc))) = sc + 1) \<and>
   (scored p \<longrightarrow> scoreCheck p sc = (p, sc)) \<and>
   checkPipes br (fst (checkPipes br ps sc)) (fst (snd (checkPipes br ps sc))) =
     checkPipes br ps sc \<and>
   (\<not> snd (snd (checkPipes br ps sc)) \<longrightarrow>
      fst (snd (checkPipes br ps sc)) =
        sc + length (filter (\<lambda>p. \<not> scored p \<and> pipe_x p + PIPE_WIDTH < 50) ps)) \<and>
   (\<not> gameOver (simulate dt rnd s) \<longrightarrow>
      score (simulate dt rnd s) =
        score s + length (filter (\<lambda>p. \<not> scored p \<and> pipe_x p + PIPE_WIDTH < 50)
          (spawn rnd (filter (\<lambda>p. \<not> retired p) (map (movePipe dt) (pipes s))))) \<and>
      list_all (\<lambda>p. scored p \<or> 50 \<le> pipe_x p + PIPE_WIDTH) (pipes (simulate dt rnd s)))"
proof -
  have "score (simulate dt rnd s) =
        score s + length (filter (\<lambda>p. \<not> scored p \<and> pipe_x p + PIPE_WIDTH < 50)
          (spawn rnd (filter (\<lambda>p. \<not> retired p) (map (movePipe dt) (pipes s))))) \<and>
      list_all (\<lambda>p. scored p \<or> 50 \<le> pipe_x p + PIPE_WIDTH) (pipes (simulate dt rnd s))"
    if "\<not> gameOver (simulate dt rnd s)"
  proof
    from that show "score (simulate dt rnd s) =
        score s + length (filter (\<lambda>p. \<not> scored p \<and> pipe_x p + PIPE_WIDTH < 50)
          (spawn rnd (filter (\<lambda>p. \<not> retired p) (map (movePipe dt) (pipes s)))))"
      by (simp add: simulate_fields checkPipes_count)
    from that scoredBehind_simulate [of dt rnd s]
    show "list_all (\<lambda>p. scored p \<or> 50 \<le> pipe_x p + PIPE_WIDTH) (pipes (simulate dt rnd s))"
      by (simp add: scoredBehind_def)
  qed
  moreover have "scoreCheck p sc =
     (p\<lparr>scored := scored p \<or> pipe_x p + PIPE_WIDTH < 50\<rparr>,
      if \<not> scored p \<and> pipe_x p + PIPE_WIDTH < 50 then sc + 1 else sc)"
    by (cases "scored p") (simp_all add: scoreCheck_def)
  moreover have "scored (fst (scoreCheck p sc)) \<and> snd (scoreCheck p sc) = sc + 1 \<and>
      snd (scoreCheck (fst (scoreCheck p sc)) (snd (scoreCheck p sc))) = sc + 1"
    if "\<not> scored p \<and> pipe_x p + PIPE_WIDTH < 50"
    using that by (simp add: scoreCheck_def)
  moreover have "scoreCheck p sc = (p, sc)" if "scored p"
    using that by (simp add: scoreCheck_def)
  ultimately show ?thesis
    using scoreCheck_twice [of p sc] checkPipes_twice [of br ps sc] checkPipes_count [of br ps sc]
    by blast
qed

theorem scoring_idempotent_witness:
  "\<not> scored \<lparr>pipe_x = - 3, topHeight = 100, scored = False\<rparr> \<and>
   pipe_x \<lparr>pipe_x = - 3, topHeight = 100, scored = False\<rparr> + PIPE_WIDTH < 50 \<and>
   scoreCheck \<lparr>pipe_x = - 3, topHeight = 100, scored = False\<rparr> 4 =
     (\<lparr>pipe_x = - 3, topHeight = 100, scored = True\<rparr>, 5) \<and>
   scoreCheck \<lparr>pipe_x = - 3, topHeight = 100, scored = True\<rparr> 5 =
     (\<lparr>pipe_x = - 3, topHeight = 100, scored = True\<rparr>, 5) \<and>
   \<not> snd (snd (checkPipes (birdRect 120)
     [\<lparr>pipe_x = - 3, topHeight = 100, scored = False\<rparr>,
      \<lparr>pipe_x = 180, topHeight = 90, scored = False\<rparr>] 4)) \<and>
   fst (snd (checkPipes (birdRect 120)
     [\<lparr>pipe_x = - 3, topHeight = 100, scored = False\<rparr>,
      \<lparr>pipe_x = 180, topHeight = 90, scored = False\<rparr>] 4)) = 5 \<and>
   \<not> gameOver (simulate 1 (1 / 2) passing) \<and>
   score passing = 4 \<and> score (simulate 1 (1 / 2) passing) = 5 \<and>
   \<not> gameOver (simulate 0 (1 / 2) (simulate 1 (1 / 2) passing)) \<and>
   score (simulate 0 (1 / 2) (simulate 1 (1 / 2) passing)) = 5"
proof -
  let ?p = "\<lparr>pipe_x = - 3, topHeight = 100, scored = False\<rparr>"
  let ?ps = "[?p, \<lparr>pipe_x = 180, topHeight = 90, scored = False\<rparr>]"
  have h: "\<not> scored ?p \<and> pipe_x ?p + PIPE_WIDTH < 50" by (simp add: constants)
  have n: "\<not> snd (snd (checkPipes (birdRect 120) ?ps 4))"
    by (simp add: game_defs)
  note T = scoring_idempotent [of ?p 4 "birdRect 120" ?ps]
  from T h have a: "scored (fst (scoreCheck ?p 4))" "snd (scoreCheck ?p 4) = 4 + 1"
    by blast+
  from T n have b: "fst (snd (checkPipes (birdRect 120) ?ps 4)) =
    4 + length (filter (\<lambda>p. \<not> scored p \<and> pipe_x p + PIPE_WIDTH < 50) ?ps)" by blast
  from T have c: "scoreCheck (fst (scoreCheck ?p 4)) (snd (scoreCheck ?p 4)) = scoreCheck ?p 4"
    by blast
  have d: "scoreCheck ?p 4 = (\<lparr>pipe_x = - 3, topHeight = 100, scored = True\<rparr>, 5)"
    using a by (simp add: scoreCheck_def constants)
  from scoring_idempotent [of "\<lparr>pipe_x = - 3, topHeight = 100, scored = True\<rparr>" 5]
  have e: "scoreCheck \<lparr>pipe_x = - 3, topHeight = 100, scored = True\<rparr> 5 =
    (\<lparr>pipe_x = - 3, topHeight = 100, scored = True\<rparr>, 5)" by simp
  have f: "\<not> gameOver (simulate 1 (1 / 2) passing)" "score passing = 4"
    "\<not> gameOver (simulate 0 (1 / 2) (simulate 1 (1 / 2) passing))"
    "score (simulate 0 (1 / 2) (simulate 1 (1 / 2) passing)) = 5"
    by (simp_all add: game_defs passing_def)
  have g: "spawn (1 / 2) (filter (\<lambda>p. \<not> retired p) (map (movePipe 1) (pipes passing))) =
    [\<lparr>pipe_x = - 3, topHeight = 100, scored = False\<rparr>,
     \<lparr>pipe_x = 288, topHeight = 181, scored = False\<rparr>]"
    by (simp add: passing_def spawn_def movePipe_def retired_def constants)
  from scoring_idempotent [of ?p 4 "birdRect 120" ?ps 1 "1 / 2" passing] f(1)
  have "score (simulate 1 (1 / 2) passing) =
    score passing + length (filter (\<lambda>p. \<not> scored p \<and> pipe_x p + PIPE_WIDTH < 50)
      (spawn (1 / 2) (filter (\<lambda>p. \<not> retired p) (map (movePipe 1) (pipes passing)))))"
    by blast
  then have i: "score (simulate 1 (1 / 2) passing) = 5"
    by (simp add: g f(2) constants)
  from h n b c d e f i show ?thesis by (simp add: constants)
qed

section \<open>Impulses by phase (C7)\<close>

text \<open>
  C7. What an accepted call of \<open>jump\<close> does depends on the phase. In phase Running
  the session is the old one with the velocity replaced by \<open>- JUMP_STRENGTH\<close> = -7.5,
  whatever it was. In phase NotStarted the session is the old one with \<open>gameStarted\<close>
  set, so its phase is Running and the velocity is unchanged. In phase Over no session
  object changes, and the click and touch handlers return the component as it was.
\<close>

theorem impulse_by_phase:
  "JUMP_COOLDOWN \<le> now - lastJumpTime w \<Longrightarrow>
   (phase (current w) = Some Running \<longrightarrow>
      current (jump now w) = (current w)\<lparr>bird := (bird (current w))\<lparr>velocity := - JUMP_STRENGTH\<rparr>\<rparr> \<and>
      velocity (bird (current (jump now w))) = - (15 / 2) \<and>
      handleCanvasClick now w = jump now w \<and> handleTouchStart now w = jump now w) \<and>
   (phase (current w) = Some NotStarted \<longrightarrow>
      current (jump now w) = (current w)\<lparr>gameStarted := True\<rparr> \<and>
      phase (current (jump now w)) = Some Running \<and>
      velocity (bird (current (jump now w))) = velocity (bird (current w)) \<and>
      handleCanvasClick now w = jump now w \<and> handleTouchStart now w = jump now w) \<and>
   (phase (current w) = Some Over \<longrightarrow>
      current (jump now w) = current w \<and> heap (jump now w) = heap w \<and>
      handleCanvasClick now w = w \<and> handleTouchStart now w = w)"
  by (auto simp add: jump_def phase_def handleCanvasClick_def handleTouchStart_def Let_def
      constants split: if_splits)

theorem impulse_by_phase_witness:
  "JUMP_COOLDOWN \<le> 1000 - lastJumpTime (worldOf flying 0 0) \<and>
   phase (current (worldOf flying 0 0)) = Some Running \<and>
   velocity (bird (current (worldOf flying 0 0))) = 3 \<and>
   velocity (bird (current (jump 1000 (worldOf flying 0 0)))) = - (15 / 2) \<and>
   JUMP_COOLDOWN \<le> 1000 - lastJumpTime (worldOf initialState 0 0) \<and>
   phase (current (worldOf initialState 0 0)) = Some NotStarted \<and>
   phase (current (jump 1000 (worldOf initialState 0 0))) = Some Running \<and>
   velocity (bird (current (jump 1000 (worldOf initialState 0 0)))) = 0 \<and>
   JUMP_COOLDOWN \<le> 1000 - lastJumpTime (worldOf crashed 0 0) \<and>
   phase (current (worldOf crashed 0 0)) = Some Over \<and>
   current (jump 1000 (worldOf crashed 0 0)) = crashed \<and>
   handleCanvasClick 1000 (worldOf crashed 0 0) = worldOf crashed 0 0"
  using impulse_by_phase [of 1000 "worldOf flying 0 0"]
    impulse_by_phase [of 1000 "worldOf initialState 0 0"]
    impulse_by_phase [of 1000 "worldOf crashed 0 0"]
  by (simp add: flying_def crashed_def initialState_def phase_def constants)

section \<open>Restart (C8)\<close>

text \<open>
  C8. For every component state, whatever its session and score, \<open>restartGame\<close> makes
  the session reference point to a new object and writes to no other object; the new
  session has score 0, no pipes, phase Running, frame counter 0, and the bird at y = 200
  with velocity 0. In every component reached from the initial one the address of the
  new object is not the one of the session so far, so that the old session object is
  left as it was, after any number of restarts.
\<close>

theorem restart_fresh_session:
  "current (restartGame w) = restartState \<and>
   score (current (restartGame w)) = 0 \<and>
   pipes (current (restartGame w)) = [] \<and>
   phase (current (restartGame w)) = Some Running \<and>
   frameCount (current (restartGame w)) = 0 \<and>
   bird_y (bird (current (restartGame w))) = 200 \<and>
   velocity (bird (current (restartGame w))) = 0 \<and>
   gameStateRef (restartGame w) = nextAddr w \<and>
   nextAddr (restartGame w) = nextAddr w + 1 \<and>
   (\<forall>a. a \<noteq> nextAddr w \<longrightarrow> heap (restartGame w) a = heap w a) \<and>
   (gameStateRef w < nextAddr w \<longrightarrow>
      gameStateRef (restartGame w) \<noteq> gameStateRef w \<and>
      heap (restartGame w) (gameStateRef w) = current w) \<and>
   gameStateRef (run es initialWorld) < nextAddr (run es initialWorld) \<and>
   gameStateRef (restartGame (run es initialWorld)) \<noteq> gameStateRef (run es initialWorld) \<and>
   heap (restartGame (run es initialWorld)) (gameStateRef (run es initialWorld)) =
     current (run es initialWorld)"
proof -
  have f: "gameStateRef (run es initialWorld) < nextAddr (run es initialWorld)"
    by (rule fresh_run [OF fresh_initial])
  have g: "gameStateRef (restartGame v) \<noteq> gameStateRef v \<and>
      heap (restartGame v) (gameStateRef v) = current v" if "gameStateRef v < nextAddr v" for v
    using that by (simp add: restartGame_def current_def)
  have "current (restartGame w) = restartState \<and>
   score (current (restartGame w)) = 0 \<and>
   pipes (current (restartGame w)) = [] \<and>
   phase (current (restartGame w)) = Some Running \<and>
   frameCount (current (restartGame w)) = 0 \<and>
   bird_y (bird (current (restartGame w))) = 200 \<and>
   velocity (bird (current (restartGame w))) = 0 \<and>
   gameStateRef (restartGame w) = nextAddr w \<and>
   nextAddr (restartGame w) = nextAddr w + 1 \<and>
   (\<forall>a. a \<noteq> nextAddr w \<longrightarrow> heap (restartGame w) a = heap w a)"
    by (simp add: restartGame_def current_def restartState_def phase_def)
  with f g [of w] g [OF f] show ?thesis by blast
qed

theorem restart_fresh_session_witness:
  "phase (current (run crashRun initialWorld)) = Some Over \<and>
   bird_y (bird (current (run crashRun initialWorld))) = 5243 / 10 \<and>
   gameStateRef (run crashRun initialWorld) = 0 \<and>
   nextAddr (run crashRun initialWorld) = 1 \<and>
   gameStateRef (run crashRun initialWorld) < nextAddr (run crashRun initialWorld) \<and>
   current (restartGame (run crashRun initialWorld)) = restartState \<and>
   gameStateRef (restartGame (run crashRun initialWorld)) = 1 \<and>
   heap (restartGame (run crashRun initialWorld)) 0 = current (run crashRun initialWorld) \<and>
   gameStateRef (restartGame (restartGame (run crashRun initialWorld))) = 2 \<and>
   heap (restartGame (restartGame (run crashRun initialWorld))) 1 = restartState \<and>
   heap (restartGame (restartGame (run crashRun initialWorld))) 0 =
     current (run crashRun initialWorld)"
proof -
  let ?w = "run crashRun initialWorld"
  have p: "phase (current ?w) = Some Over" "bird_y (bird (current ?w)) = 5243 / 10"
    by (simp_all add: crashRun_state phase_def)
  note r = crashRun_state(2,3)
  note T = restart_fresh_session [of ?w crashRun]
  note U = restart_fresh_session [of "restartGame ?w" "crashRun @ [Restart]"]
  from T have 1: "gameStateRef ?w < nextAddr ?w"
    and 2: "current (restartGame ?w) = restartState"
    and 3: "gameStateRef (restartGame ?w) = nextAddr ?w"
    and 4: "heap (restartGame ?w) (gameStateRef ?w) = current ?w"
    and 5: "nextAddr (restartGame ?w) = nextAddr ?w + 1"
    by blast+
  from U have 6: "gameStateRef (restartGame (restartGame ?w)) = nextAddr (restartGame ?w)"
    and 7: "\<forall>a. a \<noteq> nextAddr (restartGame ?w) \<longrightarrow>
      heap (restartGame (restartGame ?w)) a = heap (restartGame ?w) a"
    by blast+
  from 3 r have g: "gameStateRef (restartGame ?w) = 1" by simp
  from 4 r have h: "heap (restartGame ?w) 0 = current ?w" by simp
  from 5 r have i: "nextAddr (restartGame ?w) = 2" by simp
  from 6 i have j: "gameStateRef (restartGame (restartGame ?w)) = 2" by simp
  from 7 i have "heap (restartGame (restartGame ?w)) 1 = heap (restartGame ?w) 1"
    and 8: "heap (restartGame (restartGame ?w)) 0 = heap (restartGame ?w) 0"
    by simp_all
  with 2 g have k: "heap (restartGame (restartGame ?w)) 1 = restartState"
    by (simp add: current_def)
  from 8 h have l: "heap (restartGame (restartGame ?w)) 0 = current ?w" by simp
  from p r 1 2 g h j k l show ?thesis by blast
qed

section \<open>Retired pipes are scored (C9)\<close>

text \<open>
  C9. After any sequence of frames, clicks, touches, key presses and restarts from the
  initial component (the step multiplier of every frame is at most 1 by the clamp), in
  a frame of a game that is not over, with a step multiplier of at most 1, in particular
  one between 0 and 1, every pipe whose index the retirement loop pushes on \<open>rm\<close> is
  already scored: a pipe moves by at most 2 in a frame and is scored once its trailing
  edge is left of 50, so an unscored pipe has its trailing edge at 48 or more after the
  move and is not retired.
\<close>

theorem retired_pipes_already_scored:
  assumes "dt \<le> 1"
    and "\<not> gameOver (current (run es initialWorld))"
    and "i \<in> set (snd (advanceLoop dt 0 (pipes (current (run es initialWorld)))))"
  shows "scored (pipes (current (run es initialWorld)) ! i)"
proof -
  let ?s = "current (run es initialWorld)"
  from assms(3) have i: "i < length (pipes ?s)" and r: "retired (movePipe dt (pipes ?s ! i))"
    by (simp_all add: advanceLoop_rm)
  have "scoredBehind ?s" by (rule scoredBehind_run [OF scoredBehind_initial])
  with assms(2) i have "scored (pipes ?s ! i) \<or> 50 \<le> pipe_x (pipes ?s ! i) + PIPE_WIDTH"
    by (simp add: scoredBehind_def list_all_length)
  moreover from r assms(1) have "pipe_x (pipes ?s ! i) + PIPE_WIDTH \<le> 2"
    by (simp add: retired_def movePipe_def constants)
  ultimately show ?thesis by simp
qed

theorem retired_pipes_already_scored_witness:
  "(1 :: real) \<le> 1 \<and>
   \<not> gameOver (current (run sampleRun initialWorld)) \<and>
   0 \<in> set (snd (advanceLoop 1 0 (pipes (current (run sampleRun initialWorld))))) \<and>
   pipe_x (pipes (current (run sampleRun initialWorld)) ! 0) = - 50 \<and>
   scored (pipes (current (run sampleRun initialWorld)) ! 0)"
proof -
  have a: "\<not> gameOver (current (run sampleRun initialWorld))"
    by (simp add: sampleRun_state)
  have b: "0 \<in> set (snd (advanceLoop 1 0 (pipes (current (run sampleRun initialWorld)))))"
    by (simp add: sampleRun_state movePipe_def retired_def constants)
  have c: "pipe_x (pipes (current (run sampleRun initialWorld)) ! 0) = - 50"
    by (simp add: sampleRun_state)
  from retired_pipes_already_scored [of 1 sampleRun 0, OF _ a b] a b c
  show ?thesis by simp
qed

section \<open>Starting the game (C10)\<close>

text \<open>
  C10. In a component reached from the initial one whose phase is NotStarted, the Space
  key starts the game without reading the clock and without touching the time of the
  last accepted impulse, whereas a click or touch is dropped when the cooldown has not
  elapsed, and otherwise starts the game and becomes the last accepted impulse. So
  after a start by Space a jump request at any clock time \<open>t\<close> of at least 200
  (milliseconds since 1970) is accepted, and after a start by a click at time \<open>now\<close> a
  jump request less than 200 milliseconds later is dropped.
\<close>

theorem space_start_bypasses_cooldown:
  assumes "w = run es initialWorld" and "phase (current w) = Some NotStarted"
  shows "handleKeyPress ''Space'' now w =
      (mutate (\<lambda>s. s\<lparr>gameStarted := True\<rparr>) w)\<lparr>lastFrameTime := 0\<rparr> \<and>
    phase (current (handleKeyPress ''Space'' now w)) = Some Running \<and>
    lastJumpTime (handleKeyPress ''Space'' now w) = lastJumpTime w \<and>
    (now - lastJumpTime w < JUMP_COOLDOWN \<longrightarrow>
       handleCanvasClick now w = w \<and> handleTouchStart now w = w) \<and>
    (JUMP_COOLDOWN \<le> now - lastJumpTime w \<longrightarrow>
       phase (current (handleCanvasClick now w)) = Some Running \<and>
       lastJumpTime (handleCanvasClick now w) = now \<and>
       handleTouchStart now w = handleCanvasClick now w) \<and>
    (JUMP_COOLDOWN \<le> t \<longrightarrow>
       velocity (bird (current (jump t (handleKeyPress ''Space'' now w)))) = - JUMP_STRENGTH) \<and>
    (JUMP_COOLDOWN \<le> now \<and> t - now < JUMP_COOLDOWN \<longrightarrow>
       jump t (handleCanvasClick now w) = handleCanvasClick now w)"
proof -
  from assms(2) have ns: "\<not> gameStarted (current w)" "\<not> gameOver (current w)"
    by (auto simp add: phase_def split: if_splits)
  have "noImpulseYet w"
    unfolding assms(1) by (rule noImpulseYet_run [OF noImpulseYet_initial])
  with ns have l: "lastJumpTime w = 0" by (simp add: noImpulseYet_def)
  let ?k = "handleKeyPress ''Space'' now w"
  have k: "?k = (mutate (\<lambda>s. s\<lparr>gameStarted := True\<rparr>) w)\<lparr>lastFrameTime := 0\<rparr>"
    using ns by (simp add: handleKeyPress_def)
  have 1: "phase (current ?k) = Some Running" "lastJumpTime ?k = lastJumpTime w"
    using ns by (simp_all add: k phase_def)
  have 2: "handleCanvasClick now w = w \<and> handleTouchStart now w = w"
    if "now - lastJumpTime w < JUMP_COOLDOWN"
    using that ns by (simp add: handleCanvasClick_def handleTouchStart_def jump_def)
  have 3: "phase (current (handleCanvasClick now w)) = Some Running \<and>
       lastJumpTime (handleCanvasClick now w) = now \<and>
       handleTouchStart now w = handleCanvasClick now w"
    if "JUMP_COOLDOWN \<le> now - lastJumpTime w"
    using that ns
    by (simp add: handleCanvasClick_def handleTouchStart_def jump_def Let_def phase_def)
  have 4: "velocity (bird (current (jump t ?k))) = - JUMP_STRENGTH" if "JUMP_COOLDOWN \<le> t"
    using that ns l by (simp add: k jump_def Let_def)
  have 5: "jump t (handleCanvasClick now w) = handleCanvasClick now w"
    if "JUMP_COOLDOWN \<le> now \<and> t - now < JUMP_COOLDOWN"
  proof -
    from that l have "lastJumpTime (handleCanvasClick now w) = now" using 3 by simp
    with that show ?thesis by (simp add: jump_def)
  qed
  from k 1 2 3 4 5 show ?thesis by blast
qed

theorem space_start_bypasses_cooldown_witness:
  "phase (current (run [Frame 500 (1 / 2)] initialWorld)) = Some NotStarted \<and>
   JUMP_COOLDOWN \<le> 1010 \<and>
   velocity (bird (current (jump 1010
     (handleKeyPress ''Space'' 1000 (run [Frame 500 (1 / 2)] initialWorld))))) = - (15 / 2) \<and>
   JUMP_COOLDOWN \<le> 1000 - lastJumpTime (run [Frame 500 (1 / 2)] initialWorld) \<and>
   JUMP_COOLDOWN \<le> 1000 \<and> 1010 - 1000 < JUMP_COOLDOWN \<and>
   phase (current (handleCanvasClick 1000 (run [Frame 500 (1 / 2)] initialWorld))) =
     Some Running \<and>
   velocity (bird (current (jump 1010
     (handleCanvasClick 1000 (run [Frame 500 (1 / 2)] initialWorld))))) = 0 \<and>
   100 - lastJumpTime (run [Frame 500 (1 / 2)] initialWorld) < JUMP_COOLDOWN \<and>
   handleCanvasClick 100 (run [Frame 500 (1 / 2)] initialWorld) =
     run [Frame 500 (1 / 2)] initialWorld"
proof -
  let ?w = "run [Frame 500 (1 / 2)] initialWorld"
  have p: "phase (current ?w) = Some NotStarted"
    by (simp add: game_defs)
  have l: "lastJumpTime ?w = 0"
    by (simp add: game_defs)
  have v: "velocity (bird (current (handleCanvasClick 1000 ?w))) = 0"
    by (simp add: game_defs)
  have c: "JUMP_COOLDOWN \<le> 1010" "JUMP_COOLDOWN \<le> 1000 - lastJumpTime ?w"
    "JUMP_COOLDOWN \<le> 1000 \<and> 1010 - 1000 < JUMP_COOLDOWN"
    "100 - lastJumpTime ?w < JUMP_COOLDOWN"
    by (simp_all add: l constants)
  note T = space_start_bypasses_cooldown [OF refl p, of 1000 1010]
  note U = space_start_bypasses_cooldown [OF refl p, of 100 1010]
  from T c(1) have a: "velocity (bird (current (jump 1010
     (handleKeyPress ''Space'' 1000 ?w)))) = - JUMP_STRENGTH" by blast
  from T c(2) have b: "phase (current (handleCanvasClick 1000 ?w)) = Some Running" by blast
  from T c(3) have d: "jump 1010 (handleCanvasClick 1000 ?w) = handleCanvasClick 1000 ?w"
    by blast
  from U c(4) have e: "handleCanvasClick 100 ?w = ?w" by blast
  from a have a': "velocity (bird (current (jump 1010
     (handleKeyPress ''Space'' 1000 ?w)))) = - (15 / 2)" by (simp add: constants)
  from p c a' b d e v show ?thesis by (simp only: simp_thms)
qed

end
